theory Spec2Isabelle
  imports
    Main
    "HOL-Library.Char_ord"
    "HOL-Library.List_Lexorder"
    "HOL-Library.AList"
    "HOL-Library.Multiset"
begin

section \<open>Python values used by the attendance reporter\<close>

text \<open>
  The two scripts (the interactive one and the cron one) share the classes
  \<^verbatim>\<open>TimeHelper\<close>, \<^verbatim>\<open>ZoomAPI\<close> and \<^verbatim>\<open>AttendanceReporter\<close> line for line, apart from
  \<^verbatim>\<open>print\<close> versus \<^verbatim>\<open>logging\<close>; one model covers both.

  Strings are lists of 8-bit characters and are read as ASCII text: \<^verbatim>\<open>str.lower\<close> and
  \<^verbatim>\<open>str.strip\<close> act on the ASCII letters and the ASCII white space only. The order on
  strings is the lexicographic order on character codes, which is how Python compares
  \<^verbatim>\<open>str\<close> values; the empty string is the least element.
\<close>

datatype py_error = IndexError | OverflowError

text \<open>A JSON scalar as it arrives in a meeting's \<^verbatim>\<open>uuid\<close> or \<^verbatim>\<open>id\<close> field.\<close>

datatype pyval = PNone | PStr string | PInt int

subsection \<open>\<^verbatim>\<open>str.strip()\<close> and \<^verbatim>\<open>str.lower()\<close>\<close>

definition is_space :: "char \<Rightarrow> bool" where
  "is_space c \<longleftrightarrow> c \<in> {CHR 0x09, CHR 0x0A, CHR 0x0B, CHR 0x0C, CHR 0x0D,
                       CHR 0x1C, CHR 0x1D, CHR 0x1E, CHR 0x1F, CHR '' ''}"

definition strip :: "string \<Rightarrow> string" where
  "strip s = rev (dropWhile is_space (rev (dropWhile is_space s)))"

definition lower_char :: "char \<Rightarrow> char" where
  "lower_char c =
     (if CHR ''A'' \<le> c \<and> c \<le> CHR ''Z'' then char_of (of_char c + (32::nat)) else c)"

definition lower :: "string \<Rightarrow> string" where
  "lower s = map lower_char s"

subsection \<open>\<^verbatim>\<open>int(s)\<close> on a string and \<^verbatim>\<open>str(v)\<close>\<close>

text \<open>
  \<^verbatim>\<open>int(s)\<close> skips white space at both ends, reads an optional sign and then decimal
  digits, where a single underscore may stand between two digits. Anything else raises
  \<^verbatim>\<open>ValueError\<close>, which is \<open>None\<close> here. On an ASCII string the white space that \<^verbatim>\<open>int\<close>
  skips is tab, line feed, vertical tab, form feed, carriage return and space only: the
  separators 0x1C to 0x1F, which \<^verbatim>\<open>str.strip\<close> removes, make \<^verbatim>\<open>int\<close> raise. CPython from
  3.11 on also raises \<^verbatim>\<open>ValueError\<close> when the text has more than
  \<^verbatim>\<open>sys.get_int_max_str_digits()\<close> digits (4300 unless configured, 0 switches the limit
  off); the limit is the parameter \<open>maxd\<close>.
\<close>

definition is_int_space :: "char \<Rightarrow> bool" where
  "is_int_space c \<longleftrightarrow> c \<in> {CHR 0x09, CHR 0x0A, CHR 0x0B, CHR 0x0C, CHR 0x0D, CHR '' ''}"

definition int_strip :: "string \<Rightarrow> string" where
  "int_strip s = rev (dropWhile is_int_space (rev (dropWhile is_int_space s)))"

definition is_digit :: "char \<Rightarrow> bool" where
  "is_digit c \<longleftrightarrow> CHR ''0'' \<le> c \<and> c \<le> CHR ''9''"

definition digit_val :: "char \<Rightarrow> int" where
  "digit_val c = int (of_char c) - 48"

fun digits_ok :: "string \<Rightarrow> bool" where
  "digits_ok [] = False"
| "digits_ok [c] = is_digit c"
| "digits_ok (c # d # r) =
     (is_digit c \<and> (if d = CHR ''_'' then digits_ok r else digits_ok (d # r)))"

definition digits_value :: "string \<Rightarrow> int" where
  "digits_value body = foldl (\<lambda>a c. if c = CHR ''_'' then a else 10 * a + digit_val c) 0 body"

definition py_int :: "nat \<Rightarrow> string \<Rightarrow> int option" where
  "py_int maxd s =
     (let t = int_strip s;
          neg = (t \<noteq> [] \<and> hd t = CHR ''-'');
          body = (if t \<noteq> [] \<and> (hd t = CHR ''-'' \<or> hd t = CHR ''+'') then tl t else t)
      in if \<not> digits_ok body then None
         else if 0 < maxd \<and> maxd < length (filter is_digit body) then None
         else Some (if neg then - digits_value body else digits_value body))"

function dec_nat :: "nat \<Rightarrow> string" where
  "dec_nat n =
     (if n < 10 then [char_of (48 + n)] else dec_nat (n div 10) @ [char_of (48 + n mod 10)])"
  by pat_completeness auto
termination
  by (relation "measure (\<lambda>n. n)") auto

definition dec_int :: "int \<Rightarrow> string" where
  "dec_int i = (if i < 0 then CHR ''-'' # dec_nat (nat (- i)) else dec_nat (nat i))"

fun py_str :: "pyval \<Rightarrow> string" where
  "py_str PNone = ''None''"
| "py_str (PStr s) = s"
| "py_str (PInt i) = dec_int i"

fun truthy :: "pyval \<Rightarrow> bool" where
  "truthy PNone = False"
| "truthy (PStr s) = (s \<noteq> [])"
| "truthy (PInt i) = (i \<noteq> 0)"

subsection \<open>\<^verbatim>\<open>datetime.timedelta\<close>\<close>

text \<open>
  A \<^verbatim>\<open>timedelta\<close> is kept normalised as days, seconds (0 to 86399) and microseconds.
  The constructor raises \<^verbatim>\<open>OverflowError\<close> when the normalised number of days is
  beyond 999999999 in magnitude.
\<close>

record timedelta =
  days :: int
  seconds :: int
  microseconds :: int

definition timedelta_of_seconds :: "int \<Rightarrow> py_error + timedelta" where
  "timedelta_of_seconds secs =
     (if 999999999 < \<bar>secs div 86400\<bar> then Inl OverflowError
      else Inr \<lparr>days = secs div 86400, seconds = secs mod 86400, microseconds = 0\<rparr>)"

definition mk_timedelta :: "int \<Rightarrow> int \<Rightarrow> int \<Rightarrow> py_error + timedelta" where
  \<comment> \<open>\<^verbatim>\<open>timedelta(days=d, hours=h, minutes=m)\<close>\<close>
  "mk_timedelta d h m = timedelta_of_seconds (d * 86400 + h * 3600 + m * 60)"

section \<open>\<^verbatim>\<open>TimeHelper\<close>\<close>

subsection \<open>\<^verbatim>\<open>TimeHelper.parse_time_input\<close>\<close>

text \<open>
  The first \<^verbatim>\<open>try\<close> block catches \<^verbatim>\<open>ValueError\<close> only: a prefix that is not an integer
  falls through to the second attempt, which reads the whole text as a number of days,
  while an \<^verbatim>\<open>OverflowError\<close> of the \<^verbatim>\<open>timedelta\<close> constructor leaves the function.
\<close>

definition unit_suffix :: "char \<Rightarrow> bool" where
  "unit_suffix c \<longleftrightarrow> c \<in> {CHR ''h'', CHR ''m'', CHR ''d''}"

definition with_unit :: "char \<Rightarrow> int \<Rightarrow> py_error + timedelta" where
  "with_unit unit number =
     (if unit = CHR ''h'' then mk_timedelta 0 number 0
      else if unit = CHR ''m'' then mk_timedelta 0 0 number
      else mk_timedelta number 0 0)"

definition parse_time_input :: "nat \<Rightarrow> string \<Rightarrow> py_error + timedelta" where
  "parse_time_input maxd raw =
     (let time_input = lower (strip raw) in
      if time_input = [] then mk_timedelta 1 0 0
      else
        (case (if unit_suffix (last time_input)
               then map_option (with_unit (last time_input)) (py_int maxd (butlast time_input))
               else None) of
           Some r \<Rightarrow> r
         | None \<Rightarrow>
             (case py_int maxd time_input of
                Some n \<Rightarrow> mk_timedelta n 0 0
              | None \<Rightarrow> mk_timedelta 1 0 0)))"

text \<open>The length of one unit in seconds, for stating what \<open>parse_time_input\<close> returns.\<close>

definition unit_seconds :: "char \<Rightarrow> int" where
  "unit_seconds c = (if c = CHR ''h'' then 3600 else if c = CHR ''m'' then 60 else 86400)"

definition one_day :: timedelta where
  "one_day = \<lparr>days = 1, seconds = 0, microseconds = 0\<rparr>"

subsection \<open>\<^verbatim>\<open>TimeHelper.to_pst\<close> and \<^verbatim>\<open>TimeHelper.to_pst_time_only\<close>\<close>

text \<open>
  The calls into \<^verbatim>\<open>datetime\<close> and \<^verbatim>\<open>pytz\<close> are parameters of the model. A point on the
  naive time line is an integer (microseconds); \<open>strptime\<close> stands for
  \<^verbatim>\<open>datetime.strptime(s, "%Y-%m-%dT%H:%M:%S")\<close> and is \<open>None\<close> where that raises;
  \<open>pst_full\<close> and \<open>pst_time\<close> stand for \<^verbatim>\<open>pytz.utc.localize\<close>, \<^verbatim>\<open>astimezone\<close> to
  \<^verbatim>\<open>America/Los_Angeles\<close> and \<^verbatim>\<open>strftime\<close> with \<^verbatim>\<open>"%Y-%m-%d %H:%M PST"\<close> and \<^verbatim>\<open>"%H:%M"\<close>,
  again \<open>None\<close> where one of them raises.
\<close>

record tz_lib =
  strptime :: "string \<Rightarrow> int option"
  pst_full :: "int \<Rightarrow> string option"
  pst_time :: "int \<Rightarrow> string option"

definition to_pst :: "tz_lib \<Rightarrow> string \<Rightarrow> string" where
  "to_pst lib utc_time_str =
     (if utc_time_str = [] \<or> utc_time_str = ''Unknown'' then ''Unknown''
      else
        (case strptime lib (take 19 utc_time_str) of
           None \<Rightarrow> utc_time_str
         | Some utc_dt \<Rightarrow>
             (case pst_full lib utc_dt of
                None \<Rightarrow> utc_time_str
              | Some formatted \<Rightarrow> formatted)))"

definition to_pst_time_only :: "tz_lib \<Rightarrow> string \<Rightarrow> string" where
  "to_pst_time_only lib utc_time_str =
     (if utc_time_str = [] \<or> utc_time_str = ''Unknown'' then ''Unknown''
      else
        (let fallback = (if 5 < length utc_time_str then take 5 utc_time_str else utc_time_str)
         in case strptime lib (take 19 utc_time_str) of
              None \<Rightarrow> fallback
            | Some utc_dt \<Rightarrow>
                (case pst_time lib utc_dt of
                   None \<Rightarrow> fallback
                 | Some formatted \<Rightarrow> formatted)))"

section \<open>\<^verbatim>\<open>ZoomAPI\<close>\<close>

text \<open>
  A meeting is the JSON object of one occurrence; a field that is missing is \<open>None\<close>.
  A \<^verbatim>\<open>start_time\<close> that is missing, null or empty is skipped by every reader alike, so
  the three are one value here. The provider's answers are data: \<open>None\<close> for an answer
  whose status is not 200. Authentication is taken to have succeeded.
\<close>

record meeting =
  m_topic :: "string option"
  m_start_time :: "string option"
  m_uuid :: "pyval option"
  m_id :: "pyval option"

definition dict_get :: "'a \<Rightarrow> 'a option \<Rightarrow> 'a" where
  \<comment> \<open>\<^verbatim>\<open>d.get(key, default)\<close>, applied to the field's content\<close>
  "dict_get dflt field = (case field of None \<Rightarrow> dflt | Some v \<Rightarrow> v)"

definition start_time_of :: "meeting \<Rightarrow> string" where
  "start_time_of m = dict_get [] (m_start_time m)"

definition occurrence_id :: "meeting \<Rightarrow> pyval" where
  \<comment> \<open>\<^verbatim>\<open>meeting.get("uuid", meeting.get("id"))\<close>\<close>
  "occurrence_id m = dict_get (dict_get PNone (m_id m)) (m_uuid m)"

definition in_window :: "tz_lib \<Rightarrow> int \<Rightarrow> meeting \<Rightarrow> bool" where
  "in_window lib cutoff_time m =
     (start_time_of m \<noteq> [] \<and>
      (case strptime lib (take 19 (start_time_of m)) of
         None \<Rightarrow> False
       | Some meeting_dt \<Rightarrow> cutoff_time \<le> meeting_dt))"

definition get_meetings :: "tz_lib \<Rightarrow> int \<Rightarrow> meeting list option \<Rightarrow> meeting list" where
  "get_meetings lib cutoff_time response =
     (case response of
        None \<Rightarrow> []
      | Some all_meetings \<Rightarrow> filter (in_window lib cutoff_time) all_meetings)"

definition same_meeting :: "string \<Rightarrow> meeting \<Rightarrow> bool" where
  \<comment> \<open>\<^verbatim>\<open>str(meeting.get("id")) == str(meeting_id)\<close>\<close>
  "same_meeting meeting_id m \<longleftrightarrow> py_str (dict_get PNone (m_id m)) = meeting_id"

definition keep_instance ::
  "tz_lib \<Rightarrow> int \<Rightarrow> (pyval \<times> meeting) list \<Rightarrow> meeting \<Rightarrow> (pyval \<times> meeting) list" where
  "keep_instance lib cutoff_time unique_instances instance =
     (if in_window lib cutoff_time instance \<and> truthy (occurrence_id instance)
      then AList.update (occurrence_id instance) instance unique_instances
      else unique_instances)"

text \<open>The instances that the loop of \<open>get_meeting_instances\<close> stores under the key \<open>k\<close>.\<close>

definition kept :: "tz_lib \<Rightarrow> int \<Rightarrow> pyval \<Rightarrow> meeting \<Rightarrow> bool" where
  "kept lib c k m \<longleftrightarrow> in_window lib c m \<and> truthy (occurrence_id m) \<and> occurrence_id m = k"

text \<open>
  The clock is read twice: by \<open>get_meetings\<close> (\<open>cutoff_time\<close>) and then by the filter of
  \<open>get_meeting_instances\<close> itself (\<open>cutoff_time2\<close>). The dictionary \<open>unique_instances\<close>
  keeps the position of a key's first insertion and the value of its last one, as
  \<open>AList.update\<close> does.
\<close>

definition merged_instances ::
  "tz_lib \<Rightarrow> int \<Rightarrow> string \<Rightarrow> meeting list option \<Rightarrow> meeting list option \<Rightarrow> meeting list" where
  "merged_instances lib cutoff_time meeting_id instances_response meetings_response =
     dict_get [] instances_response
       @ filter (same_meeting meeting_id) (get_meetings lib cutoff_time meetings_response)"

definition get_meeting_instances ::
  "tz_lib \<Rightarrow> int \<Rightarrow> int \<Rightarrow> string \<Rightarrow> meeting list option \<Rightarrow> meeting list option
    \<Rightarrow> meeting list" where
  "get_meeting_instances lib cutoff_time cutoff_time2 meeting_id instances_response
       meetings_response =
     map snd
       (foldl (keep_instance lib cutoff_time2) []
          (merged_instances lib cutoff_time meeting_id instances_response meetings_response))"

text \<open>
  One session of one participant, as the participants report lists it. The text fields
  hold strings and \<^verbatim>\<open>duration\<close> an integer whenever they are present.
\<close>

record participant =
  p_name :: "string option"
  p_user_email :: "string option"
  p_join_time :: "string option"
  p_leave_time :: "string option"
  p_duration :: "int option"
  p_status :: "string option"

record zoom_api =
  instances_resp :: "string \<Rightarrow> meeting list option"
  meetings_resp :: "meeting list option"
  participants_resp :: "string \<Rightarrow> participant list option"

definition get_participants :: "zoom_api \<Rightarrow> string \<Rightarrow> participant list" where
  "get_participants api meeting_uuid = dict_get [] (participants_resp api meeting_uuid)"

section \<open>\<^verbatim>\<open>AttendanceReporter\<close>\<close>

subsection \<open>\<^verbatim>\<open>_combine_sessions\<close>\<close>

definition join_time_of :: "participant \<Rightarrow> string" where
  "join_time_of x = dict_get [] (p_join_time x)"

definition leave_time_of :: "participant \<Rightarrow> string" where
  "leave_time_of x = dict_get [] (p_leave_time x)"

definition duration_of :: "participant \<Rightarrow> int" where
  "duration_of x = dict_get 0 (p_duration x)"

definition email_of :: "participant \<Rightarrow> string" where
  "email_of x = dict_get [] (p_user_email x)"

definition name_of :: "participant \<Rightarrow> string" where
  \<comment> \<open>\<^verbatim>\<open>participant.get("name", "Unknown")\<close>\<close>
  "name_of x = dict_get ''Unknown'' (p_name x)"

definition usable_email :: "participant \<Rightarrow> bool" where
  "usable_email s \<longleftrightarrow> strip (email_of s) \<noteq> [] \<and> lower (email_of s) \<noteq> ''n/a''"

definition best_email :: "participant list \<Rightarrow> string" where
  \<comment> \<open>\<^verbatim>\<open>next((s.get("user_email", "") for s in sessions if ...), "N/A")\<close>\<close>
  "best_email sessions =
     (case filter usable_email sessions of [] \<Rightarrow> ''N/A'' | s # _ \<Rightarrow> email_of s)"

text \<open>
  \<^verbatim>\<open>sessions.sort(key=...)\<close> sorts the list in place and is stable, as \<open>sort_key\<close> is;
  every later line of the function reads the sorted list. \<^verbatim>\<open>sessions[0]\<close> raises
  \<^verbatim>\<open>IndexError\<close> on an empty list.
\<close>

definition combine_sessions :: "participant list \<Rightarrow> py_error + participant" where
  "combine_sessions unsorted =
     (let sessions = sort_key join_time_of unsorted;
          total_duration = sum_list (map duration_of sessions);
          email = best_email sessions
      in case sessions of
           [] \<Rightarrow> Inl IndexError
         | first # _ \<Rightarrow>
             Inr \<lparr>p_name = Some (name_of first),
                  p_user_email = Some email,
                  p_join_time = Some (join_time_of first),
                  p_leave_time = Some (leave_time_of (last sessions)),
                  p_duration = Some total_duration,
                  p_status = Some (dict_get ''Unknown'' (p_status first))\<rparr>)"

subsection \<open>\<^verbatim>\<open>_deduplicate_participants\<close>\<close>

definition participant_key :: "participant \<Rightarrow> string" where
  "participant_key participant =
     (let email = lower (strip (email_of participant));
          name = strip (dict_get [] (p_name participant))
      in if email \<noteq> [] \<and> email \<noteq> ''n/a'' then email else lower name)"

text \<open>
  \<^verbatim>\<open>participant_groups\<close> is a dictionary from key to list, in insertion order: a new key
  goes to the end, a known key has the session appended to its list in place.
\<close>

fun add_session ::
  "string \<Rightarrow> participant \<Rightarrow> (string \<times> participant list) list
    \<Rightarrow> (string \<times> participant list) list" where
  "add_session k p [] = [(k, [p])]"
| "add_session k p ((k', g) # rest) =
     (if k' = k then (k', g @ [p]) # rest else (k', g) # add_session k p rest)"

definition participant_groups :: "participant list \<Rightarrow> (string \<times> participant list) list" where
  "participant_groups participants =
     foldl (\<lambda>groups p. add_session (participant_key p) p groups) [] participants"

definition merge_group :: "participant list \<Rightarrow> py_error + participant" where
  "merge_group sessions =
     (case sessions of [only] \<Rightarrow> Inr only | _ \<Rightarrow> combine_sessions sessions)"

fun collect :: "(py_error + 'a) list \<Rightarrow> py_error + 'a list" where
  "collect [] = Inr []"
| "collect (Inl e # _) = Inl e"
| "collect (Inr x # rest) = (case collect rest of Inl e \<Rightarrow> Inl e | Inr xs \<Rightarrow> Inr (x # xs))"

definition deduplicate_participants :: "participant list \<Rightarrow> py_error + participant list" where
  "deduplicate_participants participants =
     collect (map (\<lambda>(k, sessions). merge_group sessions) (participant_groups participants))"

subsection \<open>\<^verbatim>\<open>generate_report\<close>\<close>

text \<open>
  The data frame is the list of its rows. The two accumulators \<^verbatim>\<open>attendance_data\<close> and
  \<^verbatim>\<open>all_participants\<close> are threaded through the loops as a pair.
\<close>

record report_row =
  meeting_date :: string
  meeting_time :: string
  participant_name :: string

definition make_row :: "tz_lib \<Rightarrow> string \<Rightarrow> string \<Rightarrow> report_row" where
  "make_row lib start_time nm =
     \<lparr>meeting_date = (if start_time \<noteq> [] then take 10 (to_pst lib start_time) else ''Unknown''),
      meeting_time = to_pst_time_only lib start_time,
      participant_name = nm\<rparr>"

definition add_participant ::
  "tz_lib \<Rightarrow> string \<Rightarrow> report_row list \<times> string list \<Rightarrow> participant
    \<Rightarrow> report_row list \<times> string list" where
  "add_participant lib start_time acc p =
     (fst acc @ [make_row lib start_time (name_of p)], snd acc @ [name_of p])"

definition process_meeting ::
  "tz_lib \<Rightarrow> zoom_api \<Rightarrow> report_row list \<times> string list \<Rightarrow> meeting
    \<Rightarrow> py_error + report_row list \<times> string list" where
  "process_meeting lib api acc m =
     (let start_time = start_time_of m;
          participants = get_participants api (py_str (occurrence_id m))
      in if participants = []
         then Inr (fst acc @ [make_row lib start_time ''No attendees''],
                   snd acc @ [''No attendees''])
         else
           (case deduplicate_participants participants of
              Inl e \<Rightarrow> Inl e
            | Inr deduplicated \<Rightarrow> Inr (foldl (add_participant lib start_time) acc deduplicated)))"

fun process_meetings ::
  "tz_lib \<Rightarrow> zoom_api \<Rightarrow> report_row list \<times> string list \<Rightarrow> meeting list
    \<Rightarrow> py_error + report_row list \<times> string list" where
  "process_meetings lib api acc [] = Inr acc"
| "process_meetings lib api acc (m # ms) =
     (case process_meeting lib api acc m of
        Inl e \<Rightarrow> Inl e
      | Inr acc' \<Rightarrow> process_meetings lib api acc' ms)"

definition generate_report ::
  "tz_lib \<Rightarrow> zoom_api \<Rightarrow> int \<Rightarrow> int \<Rightarrow> string option
    \<Rightarrow> py_error + report_row list \<times> string list" where
  "generate_report lib api cutoff_time cutoff_time2 meeting_id =
     (let meetings =
            (case meeting_id of
               None \<Rightarrow> get_meetings lib cutoff_time (meetings_resp api)
             | Some mid \<Rightarrow>
                 if mid \<noteq> []
                 then get_meeting_instances lib cutoff_time cutoff_time2 mid
                        (instances_resp api mid) (meetings_resp api)
                 else get_meetings lib cutoff_time (meetings_resp api))
      in if meetings = [] then Inr ([], [])
         else process_meetings lib api ([], []) meetings)"

section \<open>Sample data\<close>

text \<open>
  The library's answers on the one timestamp the examples use: 18:00 UTC on 5 March 2024
  is 10:00 in Los Angeles. Every other text stands for one that \<^verbatim>\<open>strptime\<close> rejects.
\<close>

definition sample_lib :: tz_lib where
  "sample_lib =
     \<lparr>strptime = (\<lambda>s. if s = ''2024-03-05T18:00:00'' then Some 1709661600000000 else None),
      pst_full = (\<lambda>t. if t = 1709661600000000 then Some ''2024-03-05 10:00 PST'' else None),
      pst_time = (\<lambda>t. if t = 1709661600000000 then Some ''10:00'' else None)\<rparr>"

text \<open>
  Two sessions of one participant, in the order of the report: a second device that joined
  five minutes after the first one and left early. The addresses differ in case only.
\<close>

definition alice1 :: participant where
  "alice1 =
     \<lparr>p_name = Some ''Alice'', p_user_email = Some ''Alice@Co.com'',
      p_join_time = Some ''2024-03-05T18:05:00Z'', p_leave_time = Some ''2024-03-05T18:10:00Z'',
      p_duration = Some 300, p_status = Some ''in_meeting''\<rparr>"

definition alice2 :: participant where
  "alice2 =
     \<lparr>p_name = Some ''Alice L.'', p_user_email = Some ''alice@co.com'',
      p_join_time = Some ''2024-03-05T18:00:00Z'', p_leave_time = Some ''2024-03-05T19:30:00Z'',
      p_duration = Some 5400, p_status = None\<rparr>"

text \<open>
  Four sessions of two participants: Ann with one address written in two ways, Bob with
  no address and his name written in two ways.
\<close>

definition ann1 :: participant where
  "ann1 =
     \<lparr>p_name = Some ''Ann'', p_user_email = Some ''A@X.com'',
      p_join_time = Some ''2024-03-05T18:00:00Z'', p_leave_time = Some ''2024-03-05T18:20:00Z'',
      p_duration = Some 1200, p_status = None\<rparr>"

definition ann2 :: participant where
  "ann2 =
     \<lparr>p_name = Some ''Ann (phone)'', p_user_email = Some ''a@x.com '',
      p_join_time = Some ''2024-03-05T18:30:00Z'', p_leave_time = Some ''2024-03-05T19:00:00Z'',
      p_duration = Some 1800, p_status = None\<rparr>"

definition bob1 :: participant where
  "bob1 =
     \<lparr>p_name = Some ''Bob'', p_user_email = Some '''',
      p_join_time = Some ''2024-03-05T18:01:00Z'', p_leave_time = Some ''2024-03-05T18:02:00Z'',
      p_duration = Some 60, p_status = None\<rparr>"

definition bob2 :: participant where
  "bob2 =
     \<lparr>p_name = Some ''BOB'', p_user_email = None,
      p_join_time = Some ''2024-03-05T18:03:00Z'', p_leave_time = Some ''2024-03-05T19:00:00Z'',
      p_duration = Some 3420, p_status = None\<rparr>"

text \<open>
  One occurrence of meeting 789 and a provider that lists it and answers the participants
  query for it with the given sessions; a session with an empty name and one with none.
\<close>

definition standup :: meeting where
  "standup =
     \<lparr>m_topic = Some ''Standup'', m_start_time = Some ''2024-03-05T18:00:00Z'',
      m_uuid = Some (PStr ''abc==''), m_id = Some (PInt 789)\<rparr>"

definition sample_api :: "participant list \<Rightarrow> zoom_api" where
  "sample_api ps =
     \<lparr>instances_resp = (\<lambda>meeting_id. None),
      meetings_resp = Some [standup],
      participants_resp = (\<lambda>uuid. if uuid = ''abc=='' then Some ps else None)\<rparr>"

definition nameless :: participant where
  "nameless =
     \<lparr>p_name = Some '''', p_user_email = Some ''eve@co.com'',
      p_join_time = Some ''2024-03-05T18:00:00Z'', p_leave_time = Some ''2024-03-05T18:20:00Z'',
      p_duration = Some 1200, p_status = None\<rparr>"

definition anonymous :: participant where
  "anonymous =
     \<lparr>p_name = None, p_user_email = Some ''eve@co.com'',
      p_join_time = Some ''2024-03-05T18:00:00Z'', p_leave_time = Some ''2024-03-05T18:20:00Z'',
      p_duration = Some 1200, p_status = None\<rparr>"

text \<open>
  One occurrence as the two queries list it: the same identifier \<^verbatim>\<open>"789"\<close>, two topics.
\<close>

definition listed_by_instances :: meeting where
  "listed_by_instances =
     \<lparr>m_topic = Some ''Weekly sync (instance)'', m_start_time = Some ''2024-03-05T18:00:00Z'',
      m_uuid = Some (PStr ''789''), m_id = None\<rparr>"

definition listed_by_meetings :: meeting where
  "listed_by_meetings =
     \<lparr>m_topic = Some ''Weekly sync'', m_start_time = Some ''2024-03-05T18:00:00Z'',
      m_uuid = Some (PStr ''789''), m_id = Some (PInt 4697)\<rparr>"

text \<open>
  The library's answers on two timestamps an hour apart, and the occurrences of meeting
  4697 as the two queries list them: occurrence \<^verbatim>\<open>"789"\<close> by both, with two topics;
  occurrence \<^verbatim>\<open>"788"\<close> by the instances query only; and a listing of \<^verbatim>\<open>"789"\<close> by the
  recent-meetings query that puts its start an hour earlier.
\<close>

definition hourly_lib :: tz_lib where
  "hourly_lib =
     \<lparr>strptime =
        (\<lambda>s. if s = ''2024-03-05T17:00:00'' then Some 1709658000000000
             else if s = ''2024-03-05T18:00:00'' then Some 1709661600000000
             else None),
      pst_full =
        (\<lambda>t. if t = 1709658000000000 then Some ''2024-03-05 09:00 PST''
             else if t = 1709661600000000 then Some ''2024-03-05 10:00 PST''
             else None),
      pst_time =
        (\<lambda>t. if t = 1709658000000000 then Some ''09:00''
             else if t = 1709661600000000 then Some ''10:00''
             else None)\<rparr>"

definition earlier_instance :: meeting where
  "earlier_instance =
     \<lparr>m_topic = Some ''Weekly sync (instance)'', m_start_time = Some ''2024-03-05T17:00:00Z'',
      m_uuid = Some (PStr ''788''), m_id = None\<rparr>"

definition listed_an_hour_early :: meeting where
  "listed_an_hour_early =
     \<lparr>m_topic = Some ''Weekly sync'', m_start_time = Some ''2024-03-05T17:00:00Z'',
      m_uuid = Some (PStr ''789''), m_id = Some (PInt 4697)\<rparr>"

section \<open>Properties\<close>

subsection \<open>The look-back window\<close>

lemma with_unit_seconds:
  "unit_suffix c \<Longrightarrow> with_unit c n = timedelta_of_seconds (n * unit_seconds c)"
  by (auto simp: unit_suffix_def with_unit_def unit_seconds_def mk_timedelta_def)

lemma digits_ok_last: "digits_ok b \<Longrightarrow> b \<noteq> [] \<and> is_digit (last b)"
  by (induction b rule: digits_ok.induct) (auto split: if_splits)

lemma dropWhile_keeps_last:
  "s \<noteq> [] \<Longrightarrow> \<not> P (last s) \<Longrightarrow> dropWhile P s \<noteq> [] \<and> last (dropWhile P s) = last s"
  by (induction s) (auto split: if_splits)

lemma int_strip_keeps_last:
  assumes "s \<noteq> []" and "\<not> is_int_space (last s)"
  shows "int_strip s \<noteq> [] \<and> last (int_strip s) = last s"
proof -
  let ?d = "dropWhile is_int_space s"
  from assms have d: "?d \<noteq> [] \<and> last ?d = last s"
    by (rule dropWhile_keeps_last)
  then have "hd (rev ?d) = last s"
    by (simp add: hd_rev)
  with assms(2) d have "dropWhile is_int_space (rev ?d) = rev ?d"
    by (cases "rev ?d") auto
  then have "int_strip s = ?d"
    by (simp add: int_strip_def)
  with d show ?thesis by simp
qed

lemma unit_suffix_plain: "unit_suffix c \<Longrightarrow> \<not> is_int_space c \<and> \<not> is_digit c"
  by (auto simp: unit_suffix_def is_int_space_def is_digit_def less_eq_char_def)

text \<open>A text that ends in a unit letter is never an integer for \<^verbatim>\<open>int\<close>.\<close>

lemma py_int_unit_None:
  assumes "t \<noteq> []" and "unit_suffix (last t)"
  shows "py_int maxd t = None"
proof -
  from assms have plain: "\<not> is_int_space (last t)" "\<not> is_digit (last t)"
    using unit_suffix_plain by blast+
  with assms(1) have st: "int_strip t \<noteq> []" "last (int_strip t) = last t"
    using int_strip_keeps_last by blast+
  define body where
    "body =
       (if int_strip t \<noteq> [] \<and> (hd (int_strip t) = CHR ''-'' \<or> hd (int_strip t) = CHR ''+'')
        then tl (int_strip t) else int_strip t)"
  have "body = [] \<or> last body = last t"
    using st by (cases "int_strip t") (auto simp: body_def split: if_splits)
  then have "\<not> digits_ok body"
    using plain(2) digits_ok_last by force
  then show ?thesis
    unfolding py_int_def Let_def body_def by simp
qed

text \<open>
  Claim C7, as the code has it. Write \<open>t\<close> for the trimmed, lower-cased input.
  (1) When \<open>t\<close> is an integer \<open>n\<close> followed by \<open>h\<close>, \<open>m\<close> or \<open>d\<close> and the duration is
  within the range of \<^verbatim>\<open>timedelta\<close>, the result is \<open>n\<close> hours, minutes or days.
  (2) When \<open>t\<close> is itself an integer \<open>n\<close> within the range, the result is \<open>n\<close> days.
  (3) When \<open>t\<close> is of neither form (it is empty, or it is not an integer and is not an
  integer followed by a unit letter), the result is one day.
  (4) When \<open>t\<close> is of one of the two integer forms and the duration is beyond the range
  of \<^verbatim>\<open>timedelta\<close>, no duration is returned: the constructor's \<^verbatim>\<open>OverflowError\<close> is not a
  \<^verbatim>\<open>ValueError\<close> and leaves the function.
\<close>

theorem parse_time_input_cases:
  "(lower (strip raw) \<noteq> [] \<and> unit_suffix (last (lower (strip raw))) \<and>
      py_int maxd (butlast (lower (strip raw))) = Some n \<and>
      \<bar>n * unit_seconds (last (lower (strip raw))) div 86400\<bar> \<le> 999999999
    \<longrightarrow> parse_time_input maxd raw =
          Inr \<lparr>days = n * unit_seconds (last (lower (strip raw))) div 86400,
               seconds = n * unit_seconds (last (lower (strip raw))) mod 86400,
               microseconds = 0\<rparr>) \<and>
   (py_int maxd (lower (strip raw)) = Some n \<and> \<bar>n\<bar> \<le> 999999999
    \<longrightarrow> parse_time_input maxd raw = Inr \<lparr>days = n, seconds = 0, microseconds = 0\<rparr>) \<and>
   (lower (strip raw) = [] \<or>
      (py_int maxd (lower (strip raw)) = None \<and>
       (\<not> unit_suffix (last (lower (strip raw))) \<or>
        py_int maxd (butlast (lower (strip raw))) = None))
    \<longrightarrow> parse_time_input maxd raw = Inr one_day) \<and>
   (lower (strip raw) \<noteq> [] \<and> unit_suffix (last (lower (strip raw))) \<and>
      py_int maxd (butlast (lower (strip raw))) = Some n \<and>
      999999999 < \<bar>n * unit_seconds (last (lower (strip raw))) div 86400\<bar>
    \<longrightarrow> parse_time_input maxd raw = Inl OverflowError) \<and>
   (py_int maxd (lower (strip raw)) = Some n \<and> 999999999 < \<bar>n\<bar>
    \<longrightarrow> parse_time_input maxd raw = Inl OverflowError)"
proof -
  let ?t = "lower (strip raw)"
  have one: "mk_timedelta 1 0 0 = Inr one_day"
    by (simp add: mk_timedelta_def timedelta_of_seconds_def one_day_def)
  have a: "parse_time_input maxd raw =
             Inr \<lparr>days = n * unit_seconds (last ?t) div 86400,
                  seconds = n * unit_seconds (last ?t) mod 86400, microseconds = 0\<rparr>"
    if "?t \<noteq> []" "unit_suffix (last ?t)" "py_int maxd (butlast ?t) = Some n"
       "\<bar>n * unit_seconds (last ?t) div 86400\<bar> \<le> 999999999"
    using that
    by (simp add: parse_time_input_def Let_def with_unit_seconds timedelta_of_seconds_def)
  have b: "parse_time_input maxd raw = Inr \<lparr>days = n, seconds = 0, microseconds = 0\<rparr>"
    if "py_int maxd ?t = Some n" "\<bar>n\<bar> \<le> 999999999"
  proof -
    have ne: "?t \<noteq> []"
      using that(1) by (auto simp: py_int_def int_strip_def)
    have "\<not> unit_suffix (last ?t)"
      using py_int_unit_None [OF ne, of maxd] that(1) by auto
    with ne that show ?thesis
      by (simp add: parse_time_input_def Let_def mk_timedelta_def timedelta_of_seconds_def)
  qed
  have c: "parse_time_input maxd raw = Inr one_day"
    if "?t = [] \<or> (py_int maxd ?t = None \<and>
          (\<not> unit_suffix (last ?t) \<or> py_int maxd (butlast ?t) = None))"
    using that one by (auto simp: parse_time_input_def Let_def)
  have d: "parse_time_input maxd raw = Inl OverflowError"
    if "?t \<noteq> []" "unit_suffix (last ?t)" "py_int maxd (butlast ?t) = Some n"
       "999999999 < \<bar>n * unit_seconds (last ?t) div 86400\<bar>"
    using that
    by (simp add: parse_time_input_def Let_def with_unit_seconds timedelta_of_seconds_def)
  have e: "parse_time_input maxd raw = Inl OverflowError"
    if "py_int maxd ?t = Some n" "999999999 < \<bar>n\<bar>"
  proof -
    have ne: "?t \<noteq> []"
      using that(1) by (auto simp: py_int_def int_strip_def)
    have "\<not> unit_suffix (last ?t)"
      using py_int_unit_None [OF ne, of maxd] that(1) by auto
    with ne that show ?thesis
      by (simp add: parse_time_input_def Let_def mk_timedelta_def timedelta_of_seconds_def)
  qed
  from a b c d e show ?thesis by blast
qed

theorem parse_time_input_cases_witness:
  "parse_time_input 4300 '' 2H '' = Inr \<lparr>days = 0, seconds = 7200, microseconds = 0\<rparr> \<and>
   parse_time_input 4300 ''7'' = Inr \<lparr>days = 7, seconds = 0, microseconds = 0\<rparr> \<and>
   parse_time_input 4300 ''soon'' = Inr one_day \<and>
   parse_time_input 4300 [CHR ''5'', CHR 0x1C, CHR ''h''] = Inr one_day \<and>
   parse_time_input 4300 ''24000000000h'' = Inl OverflowError \<and>
   parse_time_input 4300 ''1000000000'' = Inl OverflowError"
proof -
  have t1: "lower (strip '' 2H '') = ''2h''" by code_simp
  have n1: "py_int 4300 ''2'' = Some 2" by code_simp
  have u: "unit_suffix CHR ''h''" "unit_seconds CHR ''h'' = 3600"
    by (simp_all add: unit_suffix_def unit_seconds_def)
  have first: "parse_time_input 4300 '' 2H '' = Inr \<lparr>days = 0, seconds = 7200, microseconds = 0\<rparr>"
    using parse_time_input_cases [of "'' 2H ''" 4300 2] t1 n1 u by simp
  have t2: "lower (strip ''7'') = ''7''" by code_simp
  have n2: "py_int 4300 ''7'' = Some 7" by code_simp
  have second: "parse_time_input 4300 ''7'' = Inr \<lparr>days = 7, seconds = 0, microseconds = 0\<rparr>"
    using parse_time_input_cases [of "''7''" 4300 7] t2 n2 by simp
  have t3: "lower (strip ''soon'') = ''soon''" by code_simp
  have n3: "py_int 4300 ''soon'' = None" by code_simp
  have u3: "\<not> unit_suffix CHR ''n''" by (simp add: unit_suffix_def)
  have third: "parse_time_input 4300 ''soon'' = Inr one_day"
    using parse_time_input_cases [of "''soon''" 4300 0] t3 n3 u3 by simp
  have t4: "lower (strip [CHR ''5'', CHR 0x1C, CHR ''h'']) = [CHR ''5'', CHR 0x1C, CHR ''h'']"
    by code_simp
  have n4: "py_int 4300 [CHR ''5'', CHR 0x1C, CHR ''h''] = None"
    "py_int 4300 [CHR ''5'', CHR 0x1C] = None"
    by code_simp+
  have fourth: "parse_time_input 4300 [CHR ''5'', CHR 0x1C, CHR ''h''] = Inr one_day"
    using parse_time_input_cases [of "[CHR ''5'', CHR 0x1C, CHR ''h'']" 4300 0] t4 n4 by simp
  have t5: "lower (strip ''24000000000h'') = ''24000000000h''" by code_simp
  have n5: "py_int 4300 ''24000000000'' = Some 24000000000" by code_simp
  have fifth: "parse_time_input 4300 ''24000000000h'' = Inl OverflowError"
    using parse_time_input_cases [of "''24000000000h''" 4300 24000000000] t5 n5 u by simp
  have t6: "lower (strip ''1000000000'') = ''1000000000''" by code_simp
  have n6: "py_int 4300 ''1000000000'' = Some 1000000000" by code_simp
  have sixth: "parse_time_input 4300 ''1000000000'' = Inl OverflowError"
    using parse_time_input_cases [of "''1000000000''" 4300 1000000000] t6 n6 by simp
  from first second third fourth fifth sixth show ?thesis by simp
qed

text \<open>
  Claim C7 as the specification words it fails: \<^verbatim>\<open>"5"\<close> has no unit letter, so it should
  give one day, and the code gives five days.
\<close>

theorem parse_time_input_bare_integer:
  "\<not> unit_suffix (last (lower (strip ''5''))) \<and>
   parse_time_input 4300 ''5'' = Inr \<lparr>days = 5, seconds = 0, microseconds = 0\<rparr> \<and>
   parse_time_input 4300 ''5'' \<noteq> Inr one_day"
proof -
  have a: "\<not> unit_suffix (last (lower (strip ''5'')))" by code_simp
  have b: "parse_time_input 4300 ''5'' = Inr \<lparr>days = 5, seconds = 0, microseconds = 0\<rparr>"
    by code_simp
  from a b show ?thesis by (simp add: one_day_def)
qed

subsection \<open>Conversion to Pacific time\<close>




subsection \<open>Merging the sessions of one participant\<close>

lemma sort_key_Nil_iff: "sort_key f xs = [] \<longleftrightarrow> xs = []"
  by (metis length_0_conv length_sort)

lemma combine_sessions_Inr:
  assumes "sessions \<noteq> []"
  shows "combine_sessions sessions =
     Inr \<lparr>p_name = Some (name_of (hd (sort_key join_time_of sessions))),
          p_user_email = Some (best_email (sort_key join_time_of sessions)),
          p_join_time = Some (join_time_of (hd (sort_key join_time_of sessions))),
          p_leave_time = Some (leave_time_of (last (sort_key join_time_of sessions))),
          p_duration = Some (sum_list (map duration_of sessions)),
          p_status = Some (dict_get ''Unknown'' (p_status (hd (sort_key join_time_of sessions))))\<rparr>"
proof -
  have s: "sum_list (map duration_of (sort_key join_time_of sessions)) =
           sum_list (map duration_of sessions)"
    by (metis mset_map mset_sort sum_mset_sum_list)
  from assms obtain first rest where fr: "sort_key join_time_of sessions = first # rest"
    by (cases "sort_key join_time_of sessions") (auto simp: sort_key_Nil_iff)
  show ?thesis
    unfolding combine_sessions_def Let_def s by (simp add: fr)
qed

lemma hd_sort_key_Min:
  assumes "xs \<noteq> []"
  shows "f (hd (sort_key f xs)) = Min (f ` set xs)"
proof -
  let ?ys = "sort_key f xs"
  from assms obtain y ys where y: "?ys = y # ys"
    by (cases ?ys) (auto simp: sort_key_Nil_iff)
  have "sorted (map f ?ys)" by (rule sorted_sort_key)
  with y have le: "\<forall>z\<in>set ?ys. f y \<le> f z" by auto
  have mem: "y \<in> set xs"
    by (metis y list.set_intros(1) set_sort)
  have "Min (f ` set xs) = f y"
  proof (rule Min_eqI)
    show "finite (f ` set xs)" by simp
    show "f y \<in> f ` set xs" using mem by simp
    fix v assume "v \<in> f ` set xs"
    then show "f y \<le> v" using le by auto
  qed
  then show ?thesis by (simp add: y)
qed

lemma sorted_last_greatest:
  "sorted (map f ys) \<Longrightarrow> x \<in> set ys \<Longrightarrow> f x \<le> f (last ys)"
  by (induction ys) (auto split: if_splits)

lemma last_sort_key_greatest:
  assumes "x \<in> set xs"
  shows "f x \<le> f (last (sort_key f xs))"
  using sorted_last_greatest [of f "sort_key f xs" x] assms by (simp add: sorted_sort_key)


text \<open>
  Claim C1, as the code has it. For a group that is not empty the merged record's
  \<^verbatim>\<open>join_time\<close> is the least join time of the group, and its \<^verbatim>\<open>leave_time\<close> is the leave
  time of the session that is last once the group is sorted by join time. That is the
  greatest leave time when the leave times are ordered as the join times are.
\<close>

theorem combine_sessions_bounds:
  assumes "sessions \<noteq> []"
  shows "\<exists>r. combine_sessions sessions = Inr r \<and>
           p_join_time r = Some (Min (join_time_of ` set sessions)) \<and>
           p_leave_time r = Some (leave_time_of (last (sort_key join_time_of sessions))) \<and>
           ((\<forall>a\<in>set sessions. \<forall>b\<in>set sessions.
                join_time_of a \<le> join_time_of b \<longrightarrow> leave_time_of a \<le> leave_time_of b)
            \<longrightarrow> p_leave_time r = Some (Max (leave_time_of ` set sessions)))"
proof -
  let ?sorted = "sort_key join_time_of sessions"
  let ?l = "last ?sorted"
  have l: "?l \<in> set sessions"
    using assms by (metis last_in_set set_sort sort_key_Nil_iff)
  have "Max (leave_time_of ` set sessions) = leave_time_of ?l"
    if mono: "\<forall>a\<in>set sessions. \<forall>b\<in>set sessions.
                join_time_of a \<le> join_time_of b \<longrightarrow> leave_time_of a \<le> leave_time_of b"
  proof (rule Max_eqI)
    show "finite (leave_time_of ` set sessions)" by simp
    show "leave_time_of ?l \<in> leave_time_of ` set sessions" using l by simp
    fix v assume "v \<in> leave_time_of ` set sessions"
    then obtain a where a: "a \<in> set sessions" "v = leave_time_of a" by auto
    then have "join_time_of a \<le> join_time_of ?l"
      by (simp add: last_sort_key_greatest)
    with mono a l show "v \<le> leave_time_of ?l" by blast
  qed
  then show ?thesis
    using assms by (simp add: combine_sessions_Inr hd_sort_key_Min)
qed

theorem combine_sessions_bounds_witness:
  "\<exists>r. combine_sessions [alice2, alice1] = Inr r \<and>
       p_join_time r = Some (Min (join_time_of ` set [alice2, alice1])) \<and>
       p_leave_time r = Some (leave_time_of (last (sort_key join_time_of [alice2, alice1])))"
  using combine_sessions_bounds [of "[alice2, alice1]"] by auto

text \<open>
  Claim C1 as the specification words it fails: the session that joined last left first,
  so the merged \<^verbatim>\<open>leave_time\<close> is not the greatest leave time of the group.
\<close>

theorem combine_sessions_leave_not_max:
  "combine_sessions [alice1, alice2] =
     Inr \<lparr>p_name = Some ''Alice L.'', p_user_email = Some ''alice@co.com'',
          p_join_time = Some ''2024-03-05T18:00:00Z'',
          p_leave_time = Some ''2024-03-05T18:10:00Z'',
          p_duration = Some 5700, p_status = Some ''Unknown''\<rparr> \<and>
   Max (leave_time_of ` set [alice1, alice2]) = ''2024-03-05T19:30:00Z''"
  by code_simp

lemma best_email_hd:
  "filter usable_email zs \<noteq> [] \<Longrightarrow> best_email zs = email_of (hd (filter usable_email zs))"
  by (cases "filter usable_email zs") (simp_all add: best_email_def)

lemma hd_filter_self: "zs \<noteq> [] \<Longrightarrow> P (hd zs) \<Longrightarrow> hd (filter P zs) = hd zs"
  by (cases zs) simp_all

lemma hd_sort_key_stable:
  assumes "ys \<noteq> []"
  shows "hd (sort_key f ys) = hd (filter (\<lambda>y. f y = Min (f ` set ys)) ys)"
proof -
  let ?m = "Min (f ` set ys)"
  have ne: "sort_key f ys \<noteq> []" using assms by (simp add: sort_key_Nil_iff)
  have "f (hd (sort_key f ys)) = ?m" using assms by (rule hd_sort_key_Min)
  with ne have "hd (filter (\<lambda>y. f y = ?m) (sort_key f ys)) = hd (sort_key f ys)"
    by (intro hd_filter_self) simp_all
  then show ?thesis by (simp add: sort_key_stable)
qed

text \<open>
  Claim C2, as the code has it. The list is sorted in place before the address is looked
  for, so the merged \<^verbatim>\<open>user_email\<close> is the first usable address (not empty once trimmed,
  and not \<^verbatim>\<open>"n/a"\<close> in any case) of the group in join-time order: the address of the
  usable session with the least join time, the order of the report deciding between equal
  join times only. It is the first usable address in the order of the report when the
  group is already in ascending join-time order, and \<^verbatim>\<open>"N/A"\<close> when no session has one.
\<close>

theorem combine_sessions_email:
  assumes "sessions \<noteq> []"
  shows "\<exists>r. combine_sessions sessions = Inr r \<and>
           p_user_email r = Some (best_email (sort_key join_time_of sessions)) \<and>
           (sorted (map join_time_of sessions) \<longrightarrow> p_user_email r = Some (best_email sessions)) \<and>
           (\<not> (\<exists>s\<in>set sessions. usable_email s) \<longrightarrow> p_user_email r = Some ''N/A'') \<and>
           ((\<exists>s\<in>set sessions. usable_email s) \<longrightarrow>
              p_user_email r =
                Some (email_of (hd (filter
                  (\<lambda>s. usable_email s \<and>
                       join_time_of s = Min (join_time_of ` {s \<in> set sessions. usable_email s}))
                  sessions))))"
proof -
  let ?sorted = "sort_key join_time_of sessions"
  have a: "best_email ?sorted = best_email sessions" if "sorted (map join_time_of sessions)"
    using that by (simp add: sort_key_id_if_sorted)
  have b: "best_email ?sorted = ''N/A''" if "\<not> (\<exists>s\<in>set sessions. usable_email s)"
  proof -
    from that have "filter usable_email ?sorted = []"
      by (auto simp: filter_empty_conv)
    then show ?thesis by (simp add: best_email_def)
  qed
  have c: "best_email ?sorted =
             email_of (hd (filter
               (\<lambda>s. usable_email s \<and>
                    join_time_of s = Min (join_time_of ` {s \<in> set sessions. usable_email s}))
               sessions))"
    if "\<exists>s\<in>set sessions. usable_email s"
  proof -
    let ?ys = "filter usable_email sessions"
    from that have ne: "?ys \<noteq> []" by (auto simp: filter_empty_conv)
    have fs: "filter usable_email ?sorted = sort_key join_time_of ?ys"
      by (rule filter_sort)
    with ne have "best_email ?sorted = email_of (hd (sort_key join_time_of ?ys))"
      by (simp add: best_email_hd sort_key_Nil_iff)
    also have "hd (sort_key join_time_of ?ys) =
                 hd (filter (\<lambda>y. join_time_of y = Min (join_time_of ` set ?ys)) ?ys)"
      using ne by (rule hd_sort_key_stable)
    also have "filter (\<lambda>y. join_time_of y = Min (join_time_of ` set ?ys)) ?ys =
                 filter (\<lambda>s. usable_email s \<and>
                    join_time_of s = Min (join_time_of ` {s \<in> set sessions. usable_email s}))
                   sessions"
      by (simp add: conj_commute)
    finally show ?thesis .
  qed
  from a b c show ?thesis
    using assms by (simp add: combine_sessions_Inr)
qed

theorem combine_sessions_email_witness:
  "\<exists>r. combine_sessions [alice2, alice1] = Inr r \<and>
       p_user_email r = Some (best_email [alice2, alice1]) \<and>
       best_email [alice2, alice1] = ''alice@co.com''"
proof -
  have s: "sorted (map join_time_of [alice2, alice1])" by code_simp
  have e: "best_email [alice2, alice1] = ''alice@co.com''" by code_simp
  from combine_sessions_email [of "[alice2, alice1]"] s e show ?thesis by auto
qed

text \<open>
  Claim C2 as the specification words it fails: both sessions have the same key, the first
  usable address in the order of the report is \<^verbatim>\<open>"Alice@Co.com"\<close>, and the merged record
  carries the address of the session that joined first.
\<close>

theorem combine_sessions_email_sorted_scan:
  "participant_key alice1 = participant_key alice2 \<and>
   best_email [alice1, alice2] = ''Alice@Co.com'' \<and>
   map_sum id (map p_user_email) (deduplicate_participants [alice1, alice2]) =
     Inr [Some ''alice@co.com'']"
  by code_simp

lemma merge_group_Inr:
  assumes "sessions \<noteq> []"
  shows "\<exists>r. merge_group sessions = Inr r \<and>
           duration_of r = sum_list (map duration_of sessions)"
proof (cases sessions)
  case Nil
  with assms show ?thesis by simp
next
  case (Cons a rest)
  show ?thesis
  proof (cases rest)
    case Nil
    with Cons show ?thesis by (simp add: merge_group_def)
  next
    case (Cons b rest')
    with \<open>sessions = a # rest\<close> have "merge_group sessions = combine_sessions sessions"
      by (simp add: merge_group_def)
    with assms show ?thesis
      by (simp add: combine_sessions_Inr duration_of_def dict_get_def)
  qed
qed

text \<open>
  Claim C4. For a group that is not empty the merged record's duration (0 when the field
  is missing) is the sum of the members' durations, and every rearrangement of the group
  gives the same duration.
\<close>

theorem merged_duration:
  assumes "sessions \<noteq> []" and "mset sessions' = mset sessions"
  shows "\<exists>r r'. merge_group sessions = Inr r \<and> merge_group sessions' = Inr r' \<and>
           duration_of r = sum_list (map duration_of sessions) \<and>
           duration_of r' = duration_of r"
proof -
  from assms have ne': "sessions' \<noteq> []" by auto
  have "sum_list (map duration_of sessions') = sum_list (map duration_of sessions)"
    using assms(2) by (metis mset_map sum_mset_sum_list)
  with merge_group_Inr [OF assms(1)] merge_group_Inr [OF ne'] show ?thesis by auto
qed

theorem merged_duration_witness:
  "\<exists>r r'. merge_group [alice1, alice2] = Inr r \<and> merge_group [alice2, alice1] = Inr r' \<and>
       duration_of r = 5700 \<and> duration_of r' = 5700"
proof -
  have m: "mset [alice2, alice1] = mset [alice1, alice2]" by simp
  have s: "sum_list (map duration_of [alice1, alice2]) = 5700" by code_simp
  from merged_duration [of "[alice1, alice2]" "[alice2, alice1]"] m s show ?thesis by auto
qed

subsection \<open>Grouping the sessions by participant\<close>

lemma map_of_add_session:
  "map_of (add_session k p d) k' =
     (if k' = k then Some (case map_of d k of None \<Rightarrow> [p] | Some g \<Rightarrow> g @ [p])
      else map_of d k')"
  by (induction d) (auto split: option.splits)

lemma keys_add_session:
  "map fst (add_session k p d) = (if k \<in> fst ` set d then map fst d else map fst d @ [k])"
  by (induction d) (auto split: if_splits)

lemma distinct_add_session:
  "distinct (map fst d) \<Longrightarrow> distinct (map fst (add_session k p d))"
  by (simp add: keys_add_session)

lemma distinct_fold_groups:
  "distinct (map fst d) \<Longrightarrow>
   distinct (map fst (foldl (\<lambda>groups p. add_session (participant_key p) p groups) d ps))"
  by (induction ps arbitrary: d) (simp_all add: distinct_add_session)

lemma map_of_fold_groups:
  "map_of (foldl (\<lambda>groups p. add_session (participant_key p) p groups) d ps) k =
     (case map_of d k of
        None \<Rightarrow> (if filter (\<lambda>p. participant_key p = k) ps = [] then None
                 else Some (filter (\<lambda>p. participant_key p = k) ps))
      | Some g \<Rightarrow> Some (g @ filter (\<lambda>p. participant_key p = k) ps))"
  by (induction ps arbitrary: d) (auto simp: map_of_add_session split: option.splits)

lemma distinct_participant_groups: "distinct (map fst (participant_groups ps))"
  unfolding participant_groups_def by (rule distinct_fold_groups) simp

lemma participant_groups_iff:
  "(k, g) \<in> set (participant_groups ps) \<longleftrightarrow>
     g = filter (\<lambda>p. participant_key p = k) ps \<and> g \<noteq> []"
proof -
  have "(k, g) \<in> set (participant_groups ps) \<longleftrightarrow> map_of (participant_groups ps) k = Some g"
    using distinct_participant_groups [of ps] by simp
  also have "\<dots> \<longleftrightarrow> g = filter (\<lambda>p. participant_key p = k) ps \<and> g \<noteq> []"
    unfolding participant_groups_def map_of_fold_groups by auto
  finally show ?thesis .
qed



subsection \<open>The report\<close>

lemma collect_map_ex:
  "(\<And>x. x \<in> set xs \<Longrightarrow> \<exists>r. f x = Inr r \<and> h r = g x) \<Longrightarrow>
   \<exists>rs. collect (map f xs) = Inr rs \<and> map h rs = map g xs"
proof (induction xs)
  case Nil
  show ?case by simp
next
  case (Cons x xs)
  from Cons.prems obtain r where r: "f x = Inr r" "h r = g x" by auto
  from Cons obtain rs where rs: "collect (map f xs) = Inr rs" "map h rs = map g xs" by auto
  from r rs show ?case by simp
qed

lemma merge_group_name:
  assumes "g \<noteq> []"
  shows "\<exists>r. merge_group g = Inr r \<and> name_of r = name_of (hd (sort_key join_time_of g))"
proof (cases g)
  case Nil
  with assms show ?thesis by simp
next
  case (Cons a rest)
  show ?thesis
  proof (cases rest)
    case Nil
    with Cons show ?thesis by (simp add: merge_group_def)
  next
    case (Cons b rest')
    with \<open>g = a # rest\<close> have "merge_group g = combine_sessions g"
      by (simp add: merge_group_def)
    with assms show ?thesis
      by (simp add: combine_sessions_Inr name_of_def dict_get_def)
  qed
qed

lemma deduplicate_participants_Inr:
  "\<exists>dd. deduplicate_participants ps = Inr dd \<and>
        map name_of dd =
          map (\<lambda>(k, g). name_of (hd (sort_key join_time_of g))) (participant_groups ps)"
  unfolding deduplicate_participants_def
proof (rule collect_map_ex)
  fix x assume "x \<in> set (participant_groups ps)"
  then have "snd x \<noteq> []"
    using participant_groups_iff [of "fst x" "snd x" ps] by auto
  from merge_group_name [OF this]
  show "\<exists>r. (case x of (k, sessions) \<Rightarrow> merge_group sessions) = Inr r \<and>
          name_of r = (case x of (k, g) \<Rightarrow> name_of (hd (sort_key join_time_of g)))"
    by (simp add: case_prod_beta)
qed

lemma foldl_add_participant:
  "foldl (add_participant lib st) acc dd =
     (fst acc @ map (\<lambda>p. make_row lib st (name_of p)) dd, snd acc @ map name_of dd)"
  by (induction dd arbitrary: acc) (simp_all add: add_participant_def)

lemma participant_name_make_row [simp]: "participant_name (make_row lib st nm) = nm"
  by (simp add: make_row_def)

text \<open>What one meeting adds to the two lists does not depend on what they hold already.\<close>

lemma process_meeting_appends:
  "\<exists>R N. map participant_name R = N \<and>
     (\<forall>acc. process_meeting lib api acc m = Inr (fst acc @ R, snd acc @ N))"
proof (cases "get_participants api (py_str (occurrence_id m)) = []")
  case True
  then have "\<forall>acc. process_meeting lib api acc m =
      Inr (fst acc @ [make_row lib (start_time_of m) ''No attendees''],
           snd acc @ [''No attendees''])"
    by (simp add: process_meeting_def)
  then show ?thesis
    by (intro exI [where x = "[make_row lib (start_time_of m) ''No attendees'']"]
        exI [where x = "[''No attendees'']"]) simp
next
  case False
  obtain dd where dd:
    "deduplicate_participants (get_participants api (py_str (occurrence_id m))) = Inr dd"
    using deduplicate_participants_Inr by blast
  with False have "\<forall>acc. process_meeting lib api acc m =
      Inr (fst acc @ map (\<lambda>p. make_row lib (start_time_of m) (name_of p)) dd,
           snd acc @ map name_of dd)"
    by (simp add: process_meeting_def Let_def foldl_add_participant)
  then show ?thesis
    by (intro exI [where x = "map (\<lambda>p. make_row lib (start_time_of m) (name_of p)) dd"]
        exI [where x = "map name_of dd"]) (simp add: comp_def)
qed

lemma process_meetings_appends:
  "\<exists>R N. map participant_name R = N \<and>
     (\<forall>acc. process_meetings lib api acc ms = Inr (fst acc @ R, snd acc @ N))"
proof (induction ms)
  case Nil
  show ?case by (intro exI [where x = "[]"]) simp
next
  case (Cons m ms)
  obtain R1 N1 where 1: "map participant_name R1 = N1"
    "\<And>acc. process_meeting lib api acc m = Inr (fst acc @ R1, snd acc @ N1)"
    using process_meeting_appends [of lib api m] by blast
  from Cons.IH obtain R2 N2 where 2: "map participant_name R2 = N2"
    "\<And>acc. process_meetings lib api acc ms = Inr (fst acc @ R2, snd acc @ N2)"
    by blast
  have "\<forall>acc. process_meetings lib api acc (m # ms) =
          Inr (fst acc @ (R1 @ R2), snd acc @ (N1 @ N2))"
    by (simp add: 1 2)
  moreover have "map participant_name (R1 @ R2) = N1 @ N2"
    using 1(1) 2(1) by simp
  ultimately show ?case by blast
qed

lemma process_meetings_append:
  "process_meetings lib api acc (xs @ ys) =
     (case process_meetings lib api acc xs of
        Inl e \<Rightarrow> Inl e
      | Inr acc' \<Rightarrow> process_meetings lib api acc' ys)"
  by (induction xs arbitrary: acc) (auto split: sum.splits)

text \<open>
  Claim C10. Every run of the report builder returns: it has no failing path. The two
  lists it returns have equal length, and the participant name of the row at each index
  is the entry of the name list at that index.
\<close>

theorem report_aligned:
  "\<exists>rows names. generate_report lib api cutoff_time cutoff_time2 meeting_id = Inr (rows, names) \<and>
     length rows = length names \<and>
     (\<forall>i<length rows. participant_name (rows ! i) = names ! i)"
proof -
  have "\<exists>rows names. r = Inr (rows, names) \<and> map participant_name rows = names"
    if "r = generate_report lib api cutoff_time cutoff_time2 meeting_id" for r
  proof -
    define ms where "ms =
      (case meeting_id of
         None \<Rightarrow> get_meetings lib cutoff_time (meetings_resp api)
       | Some mid \<Rightarrow>
           if mid \<noteq> []
           then get_meeting_instances lib cutoff_time cutoff_time2 mid
                  (instances_resp api mid) (meetings_resp api)
           else get_meetings lib cutoff_time (meetings_resp api))"
    have ms: "r = (if ms = [] then Inr ([], []) else process_meetings lib api ([], []) ms)"
      using that unfolding generate_report_def Let_def ms_def by simp
    show ?thesis
    proof (cases "ms = []")
      case True
      with ms show ?thesis by simp
    next
      case False
      with ms process_meetings_appends [of lib api ms] show ?thesis by auto
    qed
  qed
  then obtain rows names where
    rn: "generate_report lib api cutoff_time cutoff_time2 meeting_id = Inr (rows, names)"
        "map participant_name rows = names"
    by blast
  from rn(2) have "length rows = length names" by auto
  moreover from rn(2) have "\<forall>i<length rows. participant_name (rows ! i) = names ! i"
    by auto
  ultimately show ?thesis using rn(1) by blast
qed

theorem report_aligned_witness:
  "\<exists>rows names.
     generate_report sample_lib (sample_api [ann1, bob1, ann2, bob2]) 0 0 (Some ''789'') =
       Inr (rows, names) \<and>
     length rows = length names \<and> length rows = 2 \<and>
     participant_name (rows ! 0) = names ! 0 \<and> participant_name (rows ! 1) = names ! 1 \<and>
     names = [''Ann'', ''Bob'']"
proof -
  have e: "map_sum id snd
             (generate_report sample_lib (sample_api [ann1, bob1, ann2, bob2]) 0 0 (Some ''789''))
           = Inr [''Ann'', ''Bob'']"
    by code_simp
  from report_aligned [of sample_lib "sample_api [ann1, bob1, ann2, bob2]" 0 0 "Some ''789''"]
  obtain rows names where rn:
    "generate_report sample_lib (sample_api [ann1, bob1, ann2, bob2]) 0 0 (Some ''789'') =
       Inr (rows, names)"
    "length rows = length names"
    "\<forall>i<length rows. participant_name (rows ! i) = names ! i"
    by blast
  from e rn(1) have n: "names = [''Ann'', ''Bob'']" by simp
  with rn show ?thesis by auto
qed

text \<open>
  Claim C5. For an occurrence whose participant list comes back empty, the loop body adds
  exactly one row, with the participant name \<^verbatim>\<open>"No attendees"\<close>, and appends that string
  once to the name list. In the report of a whole list of occurrences this one row and
  this one name stand between what the occurrences before it and after it contribute.
\<close>

theorem no_attendees_row:
  assumes "get_participants api (py_str (occurrence_id m)) = []"
  shows "process_meeting lib api (rows, names) m =
           Inr (rows @ [make_row lib (start_time_of m) ''No attendees''],
                names @ [''No attendees'']) \<and>
         participant_name (make_row lib (start_time_of m) ''No attendees'') = ''No attendees'' \<and>
         (\<exists>r0 n0 r1 n1.
            process_meetings lib api ([], []) pre = Inr (r0, n0) \<and>
            process_meetings lib api ([], []) post = Inr (r1, n1) \<and>
            process_meetings lib api ([], []) (pre @ m # post) =
              Inr (r0 @ make_row lib (start_time_of m) ''No attendees'' # r1,
                   n0 @ ''No attendees'' # n1))"
proof -
  have one: "process_meeting lib api acc m =
           Inr (fst acc @ [make_row lib (start_time_of m) ''No attendees''],
                snd acc @ [''No attendees''])" for acc
    using assms by (simp add: process_meeting_def)
  obtain r0 n0 where 0: "\<And>acc. process_meetings lib api acc pre = Inr (fst acc @ r0, snd acc @ n0)"
    using process_meetings_appends [of lib api pre] by blast
  obtain r1 n1 where 1: "\<And>acc. process_meetings lib api acc post = Inr (fst acc @ r1, snd acc @ n1)"
    using process_meetings_appends [of lib api post] by blast
  have "process_meetings lib api ([], []) (pre @ m # post) =
          Inr (r0 @ make_row lib (start_time_of m) ''No attendees'' # r1,
               n0 @ ''No attendees'' # n1)"
    by (simp add: process_meetings_append 0 1 one)
  moreover have "process_meetings lib api ([], []) pre = Inr (r0, n0)"
    "process_meetings lib api ([], []) post = Inr (r1, n1)"
    by (simp_all add: 0 1)
  ultimately show ?thesis
    using one [of "(rows, names)"] by auto
qed

theorem no_attendees_row_witness:
  "process_meeting sample_lib (sample_api []) ([], []) standup =
     Inr ([\<lparr>meeting_date = ''2024-03-05'', meeting_time = ''10:00'',
             participant_name = ''No attendees''\<rparr>],
          [''No attendees'']) \<and>
   generate_report sample_lib (sample_api []) 0 0 None =
     Inr ([\<lparr>meeting_date = ''2024-03-05'', meeting_time = ''10:00'',
             participant_name = ''No attendees''\<rparr>],
          [''No attendees''])"
proof -
  have f: "get_participants (sample_api []) (py_str (occurrence_id standup)) = []"
    by code_simp
  have r: "make_row sample_lib (start_time_of standup) ''No attendees'' =
             \<lparr>meeting_date = ''2024-03-05'', meeting_time = ''10:00'',
              participant_name = ''No attendees''\<rparr>"
    by code_simp
  have g: "generate_report sample_lib (sample_api []) 0 0 None =
     Inr ([\<lparr>meeting_date = ''2024-03-05'', meeting_time = ''10:00'',
             participant_name = ''No attendees''\<rparr>],
          [''No attendees''])"
    by code_simp
  from no_attendees_row [OF f, of sample_lib "[]" "[]"] r g show ?thesis by simp
qed

text \<open>
  Claim C9, as the code has it. For an occurrence with participants the report gets one
  row per group, in the order of the groups, and the row carries the \<^verbatim>\<open>name\<close> field of the
  group's earliest-joined session. \<^verbatim>\<open>"Unknown"\<close> stands in only where that field is missing;
  a field that is present is carried as it is, the empty string included.
\<close>

theorem row_names:
  assumes "get_participants api (py_str (occurrence_id m)) = ps" and "ps \<noteq> []"
  shows "\<exists>R. process_meeting lib api (rows, names) m =
               Inr (rows @ R, names @ map participant_name R) \<and>
             map participant_name R =
               map (\<lambda>(k, g). case p_name (hd (sort_key join_time_of g)) of
                               None \<Rightarrow> ''Unknown'' | Some n \<Rightarrow> n)
                 (participant_groups ps)"
proof -
  obtain dd where dd: "deduplicate_participants ps = Inr dd"
    "map name_of dd =
       map (\<lambda>(k, g). name_of (hd (sort_key join_time_of g))) (participant_groups ps)"
    using deduplicate_participants_Inr by blast
  let ?R = "map (\<lambda>p. make_row lib (start_time_of m) (name_of p)) dd"
  have n: "map participant_name ?R = map name_of dd"
    by (simp add: comp_def)
  have "process_meeting lib api (rows, names) m = Inr (rows @ ?R, names @ map name_of dd)"
    using assms dd(1) by (simp add: process_meeting_def Let_def foldl_add_participant)
  with n dd(2) show ?thesis
    by (intro exI [where x = ?R]) (simp add: name_of_def dict_get_def)
qed

theorem row_names_witness:
  "\<exists>R. process_meeting sample_lib (sample_api [anonymous]) ([], []) standup =
          Inr (R, map participant_name R) \<and>
        map participant_name R = [''Unknown'']"
proof -
  have f: "get_participants (sample_api [anonymous]) (py_str (occurrence_id standup)) =
             [anonymous]"
    by code_simp
  have g: "map (\<lambda>(k, g). case p_name (hd (sort_key join_time_of g)) of
                           None \<Rightarrow> ''Unknown'' | Some n \<Rightarrow> n)
             (participant_groups [anonymous]) = [''Unknown'']"
    by code_simp
  from row_names [OF f, of sample_lib "[]" "[]"] g show ?thesis by simp
qed

text \<open>
  Claim C9 as the specification words it fails: a session whose name is the empty string
  gives a row whose participant name is the empty string, not \<^verbatim>\<open>"Unknown"\<close>.
\<close>

theorem empty_name_kept:
  "p_name nameless = Some '''' \<and>
   generate_report sample_lib (sample_api [nameless]) 0 0 None =
     Inr ([\<lparr>meeting_date = ''2024-03-05'', meeting_time = ''10:00'',
             participant_name = ''''\<rparr>],
          [''''])"
  by code_simp

subsection \<open>The occurrences of one meeting\<close>

lemma map_of_keep_instance:
  "map_of (keep_instance lib c d x) k = (if kept lib c k x then Some x else map_of d k)"
  by (auto simp: keep_instance_def kept_def update_conv')

lemma map_of_fold_keep:
  "map_of (foldl (keep_instance lib c) d xs) k =
     (if filter (kept lib c k) xs = [] then map_of d k
      else Some (last (filter (kept lib c k) xs)))"
  by (induction xs arbitrary: d) (auto simp: map_of_keep_instance)

lemma distinct_fold_keep:
  "distinct (map fst d) \<Longrightarrow> distinct (map fst (foldl (keep_instance lib c) d xs))"
  by (induction xs arbitrary: d) (simp_all add: keep_instance_def distinct_update)

lemma keyed_update:
  "\<forall>(k, m)\<in>set d. occurrence_id m = k \<Longrightarrow>
   \<forall>(k, m)\<in>set (AList.update (occurrence_id x) x d). occurrence_id m = k"
  by (induction d) (auto split: if_splits)

lemma keyed_fold_keep:
  "\<forall>(k, m)\<in>set d. occurrence_id m = k \<Longrightarrow>
   \<forall>(k, m)\<in>set (foldl (keep_instance lib c) d xs). occurrence_id m = k"
proof (induction xs arbitrary: d)
  case Nil
  then show ?case by simp
next
  case (Cons x xs)
  have "\<forall>(k, m)\<in>set (keep_instance lib c d x). occurrence_id m = k"
    using Cons.prems keyed_update [of d x] by (simp add: keep_instance_def)
  from Cons.IH [OF this] show ?case by simp
qed

lemma keyed_values:
  assumes "\<forall>(k, m)\<in>set al. occurrence_id m = k"
  shows "map occurrence_id (map snd al) = map fst al"
  using assms by (induction al) auto

lemma keyed_filter:
  assumes "\<forall>(k, m)\<in>set al. occurrence_id m = k" and "distinct (map fst al)"
  shows "filter (\<lambda>m. occurrence_id m = k) (map snd al) =
           (case map_of al k of None \<Rightarrow> [] | Some m \<Rightarrow> [m])"
  using assms
proof (induction al)
  case Nil
  show ?case by simp
next
  case (Cons a al)
  obtain k' m' where a: "a = (k', m')" by (cases a)
  from Cons.prems a have id: "occurrence_id m' = k'" by simp
  from Cons.prems have IH: "filter (\<lambda>m. occurrence_id m = k) (map snd al) =
           (case map_of al k of None \<Rightarrow> [] | Some m \<Rightarrow> [m])"
    by (intro Cons.IH) simp_all
  show ?case
  proof (cases "k' = k")
    case True
    with Cons.prems(2) a have "map_of al k = None"
      by (simp add: map_of_eq_None_iff)
    with IH True a id show ?thesis by simp
  next
    case False
    with IH a id show ?thesis by simp
  qed
qed

lemma mem_nonempty: "x \<in> set xs \<Longrightarrow> xs \<noteq> []"
  by auto

lemma last_filter_append:
  "filter P ys \<noteq> [] \<Longrightarrow>
   filter P (xs @ ys) \<noteq> [] \<and> last (filter P (xs @ ys)) = last (filter P ys)"
  by simp

lemma map_of_fold_keep_last:
  assumes "filter (kept lib c k) ys \<noteq> []"
  shows "map_of (foldl (keep_instance lib c) [] (xs @ ys)) k =
           Some (last (filter (kept lib c k) ys))"
  by (metis map_of_fold_keep last_filter_append assms)

lemma get_meetings_in_window:
  "m \<in> set (get_meetings lib c resp) \<Longrightarrow> c2 \<le> c \<Longrightarrow> in_window lib c2 m"
  by (auto simp: get_meetings_def in_window_def split: option.splits)

lemma dedup_core:
  shows "distinct (map occurrence_id
           (map snd (foldl (keep_instance lib c) [] (xs @ ys))))"
    and "filter (kept lib c k) ys \<noteq> [] \<Longrightarrow>
         filter (\<lambda>x. occurrence_id x = k)
           (map snd (foldl (keep_instance lib c) [] (xs @ ys))) =
         [last (filter (kept lib c k) ys)]"
proof -
  define al where "al = foldl (keep_instance lib c) [] (xs @ ys)"
  have keyed: "\<forall>(k, m)\<in>set al. occurrence_id m = k"
    unfolding al_def by (rule keyed_fold_keep) simp
  have dist: "distinct (map fst al)"
    unfolding al_def by (rule distinct_fold_keep) simp
  have "map occurrence_id (map snd al) = map fst al"
    by (rule keyed_values [OF keyed])
  with dist have "distinct (map occurrence_id (map snd al))"
    by (simp only:)
  then show "distinct (map occurrence_id
           (map snd (foldl (keep_instance lib c) [] (xs @ ys))))"
    by (simp only: al_def)
  assume "filter (kept lib c k) ys \<noteq> []"
  then have "map_of al k = Some (last (filter (kept lib c k) ys))"
    unfolding al_def by (rule map_of_fold_keep_last)
  then have "filter (\<lambda>x. occurrence_id x = k) (map snd al) =
               [last (filter (kept lib c k) ys)]"
    by (simp add: keyed_filter [OF keyed dist])
  then show "filter (\<lambda>x. occurrence_id x = k)
           (map snd (foldl (keep_instance lib c) [] (xs @ ys))) =
         [last (filter (kept lib c k) ys)]"
    by (simp only: al_def)
qed

lemma kept_truthy:
  "truthy k \<Longrightarrow> kept lib c k = (\<lambda>x. in_window lib c x \<and> occurrence_id x = k)"
  by (auto simp: kept_def fun_eq_iff)

lemma in_map_of:
  "distinct (map fst al) \<Longrightarrow> m \<in> set (map snd al) \<Longrightarrow> \<exists>k. map_of al k = Some m"
  by (induction al) (auto, force)

text \<open>
  What the loop of \<open>get_meeting_instances\<close> retains from a first source \<open>xs\<close> and a second
  source \<open>ys\<close>, merged in this order.
\<close>

lemma dedup_sources:
  fixes xs ys :: "meeting list"
  shows "set (map snd (foldl (keep_instance lib c) [] (xs @ ys)))
           \<subseteq> {m \<in> set xs \<union> set ys. in_window lib c m \<and> truthy (occurrence_id m)}"
    and "m \<in> set xs \<union> set ys \<Longrightarrow> in_window lib c m \<Longrightarrow> truthy (occurrence_id m) \<Longrightarrow>
         \<exists>m'. filter (\<lambda>x. occurrence_id x = occurrence_id m)
                 (map snd (foldl (keep_instance lib c) [] (xs @ ys))) = [m']"
    and "m1 \<in> set xs \<Longrightarrow> in_window lib c m1 \<Longrightarrow> truthy (occurrence_id m1) \<Longrightarrow>
         \<not> (\<exists>y\<in>set ys. in_window lib c y \<and> occurrence_id y = occurrence_id m1) \<Longrightarrow>
         filter (\<lambda>x. occurrence_id x = occurrence_id m1)
           (map snd (foldl (keep_instance lib c) [] (xs @ ys))) =
         [last (filter (\<lambda>x. in_window lib c x \<and> occurrence_id x = occurrence_id m1) xs)]"
    and "m2 \<in> set ys \<Longrightarrow> in_window lib c m2 \<Longrightarrow> truthy (occurrence_id m2) \<Longrightarrow>
         filter (\<lambda>x. occurrence_id x = occurrence_id m2)
           (map snd (foldl (keep_instance lib c) [] (xs @ ys))) =
         [last (filter (\<lambda>x. in_window lib c x \<and> occurrence_id x = occurrence_id m2) ys)]"
proof -
  define zs where "zs = xs @ ys"
  define al where "al = foldl (keep_instance lib c) [] zs"
  have vals: "map snd (foldl (keep_instance lib c) [] (xs @ ys)) = map snd al"
    by (simp only: al_def zs_def)
  have dist: "distinct (map fst al)"
    unfolding al_def by (rule distinct_fold_keep) simp
  have look: "map_of al k =
      (if filter (kept lib c k) zs = [] then None else Some (last (filter (kept lib c k) zs)))"
    for k
    unfolding al_def by (simp only: map_of_fold_keep map_of.simps)
  have core: "filter (\<lambda>x. occurrence_id x = k) (map snd al) = [last (filter (kept lib c k) zs)]"
    if "filter (kept lib c k) zs \<noteq> []" for k
    using dedup_core(2) [of lib c k zs "[]", OF that]
    by (simp only: al_def append_Nil)
  show "set (map snd (foldl (keep_instance lib c) [] (xs @ ys)))
          \<subseteq> {m \<in> set xs \<union> set ys. in_window lib c m \<and> truthy (occurrence_id m)}"
  proof
    fix m assume "m \<in> set (map snd (foldl (keep_instance lib c) [] (xs @ ys)))"
    then have "m \<in> set (map snd al)" by (simp only: vals)
    from in_map_of [OF dist this] obtain k where k: "map_of al k = Some m" ..
    then have ne: "filter (kept lib c k) zs \<noteq> []"
      and m: "m = last (filter (kept lib c k) zs)"
      by (auto simp: look split: if_splits)
    from ne have "last (filter (kept lib c k) zs) \<in> set (filter (kept lib c k) zs)"
      by (rule last_in_set)
    with m have "m \<in> set zs" "kept lib c k m" by simp_all
    then show "m \<in> {m \<in> set xs \<union> set ys. in_window lib c m \<and> truthy (occurrence_id m)}"
      by (auto simp: zs_def kept_def)
  qed
  show "\<exists>m'. filter (\<lambda>x. occurrence_id x = occurrence_id m)
                 (map snd (foldl (keep_instance lib c) [] (xs @ ys))) = [m']"
    if "m \<in> set xs \<union> set ys" "in_window lib c m" "truthy (occurrence_id m)"
  proof -
    from that have "m \<in> set (filter (kept lib c (occurrence_id m)) zs)"
      by (simp add: zs_def kept_def)
    then have "filter (kept lib c (occurrence_id m)) zs \<noteq> []"
      by (rule mem_nonempty)
    from core [OF this]
    have "\<exists>m'. filter (\<lambda>x. occurrence_id x = occurrence_id m) (map snd al) = [m']"
      by blast
    then show ?thesis
      unfolding vals .
  qed
  show "filter (\<lambda>x. occurrence_id x = occurrence_id m1)
           (map snd (foldl (keep_instance lib c) [] (xs @ ys))) =
         [last (filter (\<lambda>x. in_window lib c x \<and> occurrence_id x = occurrence_id m1) xs)]"
    if "m1 \<in> set xs" "in_window lib c m1" "truthy (occurrence_id m1)"
      "\<not> (\<exists>y\<in>set ys. in_window lib c y \<and> occurrence_id y = occurrence_id m1)"
  proof -
    define K where "K = kept lib c (occurrence_id m1)"
    have K: "K = (\<lambda>x. in_window lib c x \<and> occurrence_id x = occurrence_id m1)"
      unfolding K_def using that(3) by (rule kept_truthy)
    from that(4) have "filter K ys = []"
      by (auto simp: K filter_empty_conv)
    then have split: "filter K zs = filter K xs"
      by (simp add: zs_def)
    from that(1,2) have "m1 \<in> set (filter K xs)" by (simp add: K)
    then have "filter K xs \<noteq> []" by (rule mem_nonempty)
    with split have "filter K zs \<noteq> []" by simp
    then have ne: "filter (kept lib c (occurrence_id m1)) zs \<noteq> []"
      unfolding K_def .
    have "filter (\<lambda>x. occurrence_id x = occurrence_id m1) (map snd al) = [last (filter K zs)]"
      unfolding K_def by (rule core [OF ne])
    also have "\<dots> = [last (filter K xs)]"
      by (simp only: split)
    finally have "filter (\<lambda>x. occurrence_id x = occurrence_id m1) (map snd al) =
        [last (filter (\<lambda>x. in_window lib c x \<and> occurrence_id x = occurrence_id m1) xs)]"
      unfolding K .
    then show ?thesis
      unfolding vals .
  qed
  show "filter (\<lambda>x. occurrence_id x = occurrence_id m2)
           (map snd (foldl (keep_instance lib c) [] (xs @ ys))) =
         [last (filter (\<lambda>x. in_window lib c x \<and> occurrence_id x = occurrence_id m2) ys)]"
    if "m2 \<in> set ys" "in_window lib c m2" "truthy (occurrence_id m2)"
  proof -
    define K where "K = kept lib c (occurrence_id m2)"
    have K: "K = (\<lambda>x. in_window lib c x \<and> occurrence_id x = occurrence_id m2)"
      unfolding K_def using that(3) by (rule kept_truthy)
    from that(1,2) have "m2 \<in> set (filter K ys)" by (simp add: K)
    then have "filter K ys \<noteq> []" by (rule mem_nonempty)
    then have ne: "filter (kept lib c (occurrence_id m2)) ys \<noteq> []"
      unfolding K_def .
    have "filter (\<lambda>x. occurrence_id x = occurrence_id m2)
            (map snd (foldl (keep_instance lib c) [] (xs @ ys))) = [last (filter K ys)]"
      unfolding K_def by (rule dedup_core(2) [OF ne])
    then show ?thesis
      unfolding K .
  qed
qed

text \<open>
  Claim C6, as the code has it. Write \<open>F\<close> for the occurrences of the instances query,
  merged first, \<open>S\<close> for the entries of the recent-meetings query that match the meeting,
  merged second, and call an occurrence usable when its identifier is truthy and it is
  inside the window of the final filter. The result has pairwise different identifiers and
  holds usable occurrences of \<open>F\<close> and \<open>S\<close> only. For every usable occurrence of \<open>F\<close> or \<open>S\<close>
  the result holds exactly one occurrence with its identifier. That one is the last usable
  copy in \<open>S\<close> when \<open>S\<close> has a usable copy, which every copy in \<open>S\<close> with a truthy identifier
  is when the clock has not moved between the two readings; it is the last usable copy in
  \<open>F\<close> when \<open>S\<close> has no usable copy.
\<close>

theorem instances_deduplicated:
  "distinct (map occurrence_id
      (get_meeting_instances lib cutoff_time cutoff_time2 meeting_id instances_response
         meetings_response)) \<and>
   set (get_meeting_instances lib cutoff_time cutoff_time2 meeting_id instances_response
          meetings_response)
     \<subseteq> {m \<in> set (dict_get [] instances_response) \<union>
               set (filter (same_meeting meeting_id)
                      (get_meetings lib cutoff_time meetings_response)).
           in_window lib cutoff_time2 m \<and> truthy (occurrence_id m)} \<and>
   (m \<in> set (dict_get [] instances_response) \<union>
          set (filter (same_meeting meeting_id)
                 (get_meetings lib cutoff_time meetings_response)) \<and>
    in_window lib cutoff_time2 m \<and> truthy (occurrence_id m)
    \<longrightarrow> (\<exists>m'. filter (\<lambda>x. occurrence_id x = occurrence_id m)
                  (get_meeting_instances lib cutoff_time cutoff_time2 meeting_id
                     instances_response meetings_response) = [m'])) \<and>
   (m1 \<in> set (dict_get [] instances_response) \<and>
    in_window lib cutoff_time2 m1 \<and> truthy (occurrence_id m1) \<and>
    \<not> (\<exists>y\<in>set (filter (same_meeting meeting_id)
                   (get_meetings lib cutoff_time meetings_response)).
          in_window lib cutoff_time2 y \<and> occurrence_id y = occurrence_id m1)
    \<longrightarrow> filter (\<lambda>x. occurrence_id x = occurrence_id m1)
          (get_meeting_instances lib cutoff_time cutoff_time2 meeting_id
             instances_response meetings_response) =
        [last (filter (\<lambda>x. in_window lib cutoff_time2 x \<and>
                           occurrence_id x = occurrence_id m1)
                 (dict_get [] instances_response))]) \<and>
   (m2 \<in> set (filter (same_meeting meeting_id)
                (get_meetings lib cutoff_time meetings_response)) \<and>
    (cutoff_time2 \<le> cutoff_time \<or> in_window lib cutoff_time2 m2) \<and>
    truthy (occurrence_id m2)
    \<longrightarrow> filter (\<lambda>x. occurrence_id x = occurrence_id m2)
          (get_meeting_instances lib cutoff_time cutoff_time2 meeting_id
             instances_response meetings_response) =
        [last (filter (\<lambda>x. in_window lib cutoff_time2 x \<and>
                           occurrence_id x = occurrence_id m2)
                 (filter (same_meeting meeting_id)
                    (get_meetings lib cutoff_time meetings_response)))])"
proof -
  define F where "F = dict_get [] instances_response"
  define S where
    "S = filter (same_meeting meeting_id) (get_meetings lib cutoff_time meetings_response)"
  define R where
    "R = get_meeting_instances lib cutoff_time cutoff_time2 meeting_id instances_response
        meetings_response"
  have res: "R = map snd (foldl (keep_instance lib cutoff_time2) [] (F @ S))"
    by (simp only: R_def F_def S_def get_meeting_instances_def merged_instances_def)
  have 1: "distinct (map occurrence_id R)"
    unfolding res by (rule dedup_core(1))
  have 2: "set R \<subseteq> {m \<in> set F \<union> set S. in_window lib cutoff_time2 m \<and> truthy (occurrence_id m)}"
    unfolding res by (rule dedup_sources(1))
  have 3: "\<exists>m'. filter (\<lambda>x. occurrence_id x = occurrence_id m) R = [m']"
    if "m \<in> set F \<union> set S" "in_window lib cutoff_time2 m" "truthy (occurrence_id m)"
    unfolding res using that by (rule dedup_sources(2))
  have 4: "filter (\<lambda>x. occurrence_id x = occurrence_id m1) R =
        [last (filter (\<lambda>x. in_window lib cutoff_time2 x \<and> occurrence_id x = occurrence_id m1) F)]"
    if "m1 \<in> set F" "in_window lib cutoff_time2 m1" "truthy (occurrence_id m1)"
      "\<not> (\<exists>y\<in>set S. in_window lib cutoff_time2 y \<and> occurrence_id y = occurrence_id m1)"
    unfolding res using that by (rule dedup_sources(3))
  have 5: "filter (\<lambda>x. occurrence_id x = occurrence_id m2) R =
        [last (filter (\<lambda>x. in_window lib cutoff_time2 x \<and> occurrence_id x = occurrence_id m2) S)]"
    if m2: "m2 \<in> set S" "cutoff_time2 \<le> cutoff_time \<or> in_window lib cutoff_time2 m2"
      "truthy (occurrence_id m2)"
  proof -
    from m2(1,2) have "in_window lib cutoff_time2 m2"
      unfolding S_def using get_meetings_in_window by auto
    with m2(1) show ?thesis
      unfolding res using m2(3) by (rule dedup_sources(4))
  qed
  from 1 2 3 4 5 show ?thesis
    unfolding R_def F_def S_def by blast
qed

theorem instances_deduplicated_witness:
  "get_meeting_instances hourly_lib 0 0 ''4697''
     (Some [listed_by_instances, earlier_instance]) (Some [listed_by_meetings]) =
     [listed_by_meetings, earlier_instance] \<and>
   occurrence_id listed_by_instances = occurrence_id listed_by_meetings \<and>
   m_topic listed_by_instances \<noteq> m_topic listed_by_meetings \<and>
   filter (\<lambda>x. occurrence_id x = PStr ''789'')
     (get_meeting_instances hourly_lib 0 0 ''4697''
        (Some [listed_by_instances, earlier_instance]) (Some [listed_by_meetings])) =
     [listed_by_meetings] \<and>
   filter (\<lambda>x. occurrence_id x = PStr ''788'')
     (get_meeting_instances hourly_lib 0 0 ''4697''
        (Some [listed_by_instances, earlier_instance]) (Some [listed_by_meetings])) =
     [earlier_instance]"
proof -
  have s: "filter (same_meeting ''4697'') (get_meetings hourly_lib 0 (Some [listed_by_meetings]))
             = [listed_by_meetings]"
    by code_simp
  have w: "in_window hourly_lib 0 listed_by_meetings" "in_window hourly_lib 0 earlier_instance"
    "in_window hourly_lib 0 listed_by_instances"
    by code_simp+
  have k: "occurrence_id listed_by_meetings = PStr ''789''"
    "occurrence_id listed_by_instances = PStr ''789''"
    "occurrence_id earlier_instance = PStr ''788''"
    by code_simp+
  have t: "m_topic listed_by_instances \<noteq> m_topic listed_by_meetings"
    by (simp add: listed_by_meetings_def listed_by_instances_def)
  have r: "get_meeting_instances hourly_lib 0 0 ''4697''
     (Some [listed_by_instances, earlier_instance]) (Some [listed_by_meetings]) =
     [listed_by_meetings, earlier_instance]"
    by code_simp
  from instances_deduplicated [of hourly_lib 0 0 "''4697''"
      "Some [listed_by_instances, earlier_instance]" "Some [listed_by_meetings]"
      earlier_instance earlier_instance listed_by_meetings] s w k
  have "filter (\<lambda>x. occurrence_id x = PStr ''789'')
     (get_meeting_instances hourly_lib 0 0 ''4697''
        (Some [listed_by_instances, earlier_instance]) (Some [listed_by_meetings])) =
     [listed_by_meetings]"
    and "filter (\<lambda>x. occurrence_id x = PStr ''788'')
     (get_meeting_instances hourly_lib 0 0 ''4697''
        (Some [listed_by_instances, earlier_instance]) (Some [listed_by_meetings])) =
     [earlier_instance]"
    by (simp_all add: dict_get_def)
  with r k t show ?thesis by simp
qed

text \<open>
  Claim C6 as the specification words it fails: both queries list occurrence \<^verbatim>\<open>"789"\<close>, the
  recent-meetings query with a start at the very edge of the window. It passes the filter
  of \<open>get_meetings\<close>, the clock moves on by a microsecond, it fails the final filter, and
  the copy that is retained is the one of the source merged first.
\<close>

theorem second_copy_outside_window:
  "filter (same_meeting ''4697'')
     (get_meetings hourly_lib 1709658000000000 (Some [listed_an_hour_early])) =
     [listed_an_hour_early] \<and>
   occurrence_id listed_an_hour_early = occurrence_id listed_by_instances \<and>
   get_meeting_instances hourly_lib 1709658000000000 1709658000000001 ''4697''
     (Some [listed_by_instances]) (Some [listed_an_hour_early]) =
     [listed_by_instances]"
  by code_simp

end
